theory Spec2Isabelle
  imports Complex_Main
begin

section \<open>The transcript stitcher of \<^verbatim>\<open>stitch_transcript.py\<close>\<close>

text \<open>
  The program reads the JSON results of a speech transcription service, one file per chunk of a
  recording, walks the speaker segments and the transcribed items of each file side by side, and
  writes one block of text per speaker turn.

  Conventions of the embedding:
  \<^item> Python floats are modelled as \<^typ>\<open>real\<close>, with exact arithmetic; the string to float
    conversion of the JSON values is taken as done. Comparisons of finite floats agree with the
    comparisons of the reals they denote.
  \<^item> The interpreter is Python 3 (3.7 or later): comparing a number with \<^verbatim>\<open>None\<close> raises
    \<^verbatim>\<open>TypeError\<close>, and a \<^verbatim>\<open>StopIteration\<close> that escapes the body of a generator becomes a
    \<^verbatim>\<open>RuntimeError\<close>.
  \<^item> A generator over a JSON array is the list of the raw objects it has not produced yet; the
    objects of the classes are built when they are pulled, as in the source.
  \<^item> The generator \<^verbatim>\<open>stitch\<close> is modelled by the list of blocks it yields, in order, together
    with the way it ends: normally, or with an exception.
\<close>

subsection \<open>Exceptions\<close>

datatype error =
    FormatError         \<comment> \<open>\<^verbatim>\<open>raise Exception("Unexpected item format: ...")\<close> in \<^verbatim>\<open>ItemSection.__init__\<close>\<close>
  | OrderingAssertion   \<comment> \<open>the \<^verbatim>\<open>assert\<close> on the start times in \<^verbatim>\<open>stitch\<close>\<close>
  | DesyncAssertion     \<comment> \<open>\<^verbatim>\<open>assert False\<close> in \<^verbatim>\<open>assert_iterator_empty\<close>\<close>
  | TypeError           \<comment> \<open>an order comparison of a float with \<^verbatim>\<open>None\<close>\<close>
  | RuntimeError        \<comment> \<open>\<^verbatim>\<open>StopIteration\<close> escaping from the generator body\<close>
  | IndexError          \<comment> \<open>\<^verbatim>\<open>alternatives[0]\<close> on an empty list\<close>

subsection \<open>The input document\<close>

text \<open>
  One element of \<^verbatim>\<open>results.speaker_labels.segments\<close>: the optional keys \<^verbatim>\<open>start_time\<close> and
  \<^verbatim>\<open>end_time\<close>, the key \<^verbatim>\<open>speaker_label\<close>, and the length of the array \<^verbatim>\<open>items\<close>.
\<close>

datatype segment_json =
  SegmentJson (j_start_time: "real option") (j_end_time: "real option")
    (j_speaker_label: string) (j_items: nat)

text \<open>
  One element of \<^verbatim>\<open>results.items\<close>: the optional keys \<^verbatim>\<open>start_time\<close> and \<^verbatim>\<open>end_time\<close>, the
  \<^verbatim>\<open>content\<close> of each element of \<^verbatim>\<open>alternatives\<close>, and the key \<^verbatim>\<open>type\<close>.
\<close>

datatype item_json =
  ItemJson (i_start_time: "real option") (i_end_time: "real option")
    (i_alternatives: "string list") (i_type: string)

record transcript =
  segments :: "segment_json list"
  items :: "item_json list"

subsection \<open>The classes\<close>

record SpeakerSection =
  start_time :: real
  end_time :: real
  speaker :: string
  item_count :: nat
  filename :: string

definition SpeakerSection_init :: "segment_json \<Rightarrow> string \<Rightarrow> SpeakerSection" where
  "SpeakerSection_init o' fname =
     \<lparr> start_time = (case j_start_time o' of None \<Rightarrow> 0 | Some x \<Rightarrow> x),
       end_time = (case j_end_time o' of None \<Rightarrow> 0 | Some x \<Rightarrow> x),
       speaker = j_speaker_label o',
       item_count = j_items o',
       filename = fname \<rparr>"

record ItemSection =
  start_time :: "real option"
  end_time :: "real option"
  alternatives :: "string list"
  item_type :: string

definition is_punctuation :: "ItemSection \<Rightarrow> bool" where
  "is_punctuation it \<longleftrightarrow> item_type it = ''punctuation''"

definition ItemSection_init :: "item_json \<Rightarrow> error + ItemSection" where
  "ItemSection_init o' =
     (let self = \<lparr> start_time = i_start_time o', end_time = i_end_time o',
                    alternatives = i_alternatives o', item_type = i_type o' \<rparr>
      in if ItemSection.start_time self = None \<or> ItemSection.end_time self = None
         then (if \<not> is_punctuation self then Inl FormatError else Inr self)
         else Inr self)"

record StitchedContent =
  speaker_label :: SpeakerSection
  item_sections :: "ItemSection list"
  time_offset :: real

definition append :: "StitchedContent \<Rightarrow> ItemSection \<Rightarrow> StitchedContent" where
  "append self item_section = self\<lparr>item_sections := item_sections self @ [item_section]\<rparr>"

subsection \<open>Formatting a duration\<close>

text \<open>Python's \<^verbatim>\<open>round\<close> on a float: to the nearest integer, a tie to the even one.\<close>

definition py_round :: "real \<Rightarrow> int" where
  "py_round x =
     (let n = \<lfloor>x\<rfloor>; r = x - of_int n
      in if r < 1 / 2 then n
         else if 1 / 2 < r then n + 1
         else if even n then n else n + 1)"

text \<open>
  \<^verbatim>\<open>datetime.timedelta(seconds=x)\<close> keeps whole microseconds, normalised into days, seconds of
  the day and microseconds of the second (the bound on the number of days is left out).
\<close>

record timedelta =
  days :: int
  seconds :: int
  microseconds :: int

definition timedelta_of_seconds :: "real \<Rightarrow> timedelta" where
  "timedelta_of_seconds x =
     (let us = py_round (x * 1000000); s = us div 1000000
      in \<lparr> days = s div 86400, seconds = s mod 86400, microseconds = us mod 1000000 \<rparr>)"

definition digit_char :: "nat \<Rightarrow> char" where
  "digit_char d = ''0123456789'' ! d"

function str_nat :: "nat \<Rightarrow> string" where
  "str_nat n = (if n < 10 then [digit_char n] else str_nat (n div 10) @ [digit_char (n mod 10)])"
  by pat_completeness auto
termination
  by (relation "measure id") auto

declare str_nat.simps [simp del]

text \<open>The format specification \<^verbatim>\<open>{:02d}\<close>, on an integer that is not negative.\<close>

definition format_02d :: "int \<Rightarrow> string" where
  "format_02d n = (let s = str_nat (nat n) in replicate (2 - length s) (CHR ''0'') @ s)"

definition format_duration :: "real \<Rightarrow> string" where
  "format_duration secs =
     (let td = timedelta_of_seconds secs
      in format_02d (seconds td) @ '':'' @
         format_02d ((seconds td mod 3600) mod 60) @ '':'' @
         format_02d (seconds td mod 60) @ '':'' @
         format_02d (microseconds td mod 1000))"

subsection \<open>Rendering a block\<close>

definition newline :: char where
  "newline = CHR 0x0A"

text \<open>The loop of \<^verbatim>\<open>render\<close> over the items of the block, \<^verbatim>\<open>content\<close> being the accumulator.\<close>

fun render_content :: "string \<Rightarrow> ItemSection list \<Rightarrow> error + string" where
  "render_content content [] = Inr content"
| "render_content content (item_section # rest) =
     (let content1 = (if length content > 0 \<and> item_type item_section \<noteq> ''punctuation''
                      then content @ '' '' else content)
      in case alternatives item_section of
           [] \<Rightarrow> Inl IndexError
         | a # _ \<Rightarrow> render_content (content1 @ a) rest)"

definition render_header :: "StitchedContent \<Rightarrow> string" where
  "render_header self =
     ''[ speaker '' @ speaker (speaker_label self) @ '':'' @ filename (speaker_label self) @
     '' ] : ( '' @
     format_duration (SpeakerSection.start_time (speaker_label self) + time_offset self) @
     '' - '' @
     format_duration (SpeakerSection.end_time (speaker_label self) + time_offset self) @
     '' )''"

definition render :: "StitchedContent \<Rightarrow> error + string" where
  "render self =
     (case render_content [] (item_sections self) of
        Inl e \<Rightarrow> Inl e
      | Inr content \<Rightarrow> Inr (render_header self @ [newline] @ content))"

subsection \<open>The merge of one file\<close>

text \<open>
  The local variables of \<^verbatim>\<open>stitch\<close> that change while one file is merged: the two generators,
  the two cursors, the block in progress, and the blocks yielded so far.
\<close>

record merge_state =
  speaker_sections :: "segment_json list"
  items_sections :: "item_json list"
  speaker_section :: SpeakerSection
  item_section :: ItemSection
  current_stitched_section :: StitchedContent
  yielded :: "StitchedContent list"

text \<open>
  One pass through the body of \<^verbatim>\<open>while True\<close>: the loop goes on, or \<^verbatim>\<open>StopIteration\<close> is
  caught (with the state at that moment), or another exception leaves the generator.
\<close>

datatype step_result =
    Continue merge_state
  | Exhausted merge_state
  | Raised error merge_state

text \<open>The branch \<^verbatim>\<open># Same speaker\<close>.\<close>

definition same_speaker :: "merge_state \<Rightarrow> step_result" where
  "same_speaker s =
     (let it = item_section s; sp = speaker_section s;
          s1 = s\<lparr>current_stitched_section := append (current_stitched_section s) it\<rparr>;
          pull = (case items_sections s of
                    [] \<Rightarrow> Exhausted s1
                  | o' # rest \<Rightarrow>
                      (case ItemSection_init o' of
                         Inl e \<Rightarrow> Raised e (s1\<lparr>items_sections := rest\<rparr>)
                       | Inr it' \<Rightarrow> Continue (s1\<lparr>items_sections := rest, item_section := it'\<rparr>)))
      in if \<not> is_punctuation it
         then (case ItemSection.start_time it of
                 None \<Rightarrow> Raised TypeError s
               | Some st \<Rightarrow>
                   if st \<ge> SpeakerSection.start_time sp then pull
                   else Raised OrderingAssertion s)
         else pull)"

text \<open>The branch \<^verbatim>\<open># New speaker\<close>; \<open>f\<close> is the file name and \<open>t\<close> the time offset of the file.\<close>

definition new_speaker :: "string \<Rightarrow> real \<Rightarrow> merge_state \<Rightarrow> step_result" where
  "new_speaker f t s =
     (let prev_speaker_section = speaker_section s
      in case speaker_sections s of
           [] \<Rightarrow> Exhausted s
         | o' # rest \<Rightarrow>
             (let sp = SpeakerSection_init o' f;
                  s1 = s\<lparr>speaker_sections := rest, speaker_section := sp\<rparr>
              in if speaker prev_speaker_section \<noteq> speaker sp
                 then Continue (s1\<lparr>yielded := yielded s @ [current_stitched_section s],
                                   current_stitched_section :=
                                     \<lparr>speaker_label = sp, item_sections = [], time_offset = t\<rparr>\<rparr>)
                 else Continue s1))"

definition step :: "string \<Rightarrow> real \<Rightarrow> merge_state \<Rightarrow> step_result" where
  "step f t s =
     (let it = item_section s; sp = speaker_section s
      in if is_punctuation it then same_speaker s
         else (case ItemSection.end_time it of
                 None \<Rightarrow> Raised TypeError s
               | Some e \<Rightarrow>
                   if e \<le> SpeakerSection.end_time sp then same_speaker s
                   else new_speaker f t s))"

text \<open>
  The handler of \<^verbatim>\<open>StopIteration\<close>: the blocks yielded in the end, and the new \<^verbatim>\<open>max_offset\<close> or
  the exception raised.
\<close>

definition assert_iterator_empty_segments :: "segment_json list \<Rightarrow> error option" where
  "assert_iterator_empty_segments itr = (case itr of [] \<Rightarrow> None | _ # _ \<Rightarrow> Some DesyncAssertion)"

definition assert_iterator_empty_items :: "item_json list \<Rightarrow> error option" where
  "assert_iterator_empty_items itr =
     (case itr of
        [] \<Rightarrow> None
      | o' # _ \<Rightarrow> (case ItemSection_init o' of Inl e \<Rightarrow> Some e | Inr _ \<Rightarrow> Some DesyncAssertion))"

definition finish :: "merge_state \<Rightarrow> StitchedContent list \<times> (error + real)" where
  "finish s =
     (case ItemSection.end_time (item_section s) of
        None \<Rightarrow> (yielded s, Inl TypeError)
      | Some e \<Rightarrow>
          (let max_offset = max (SpeakerSection.end_time (speaker_section s)) e
           in case assert_iterator_empty_segments (speaker_sections s) of
                Some err \<Rightarrow> (yielded s, Inl err)
              | None \<Rightarrow>
                  (case assert_iterator_empty_items (items_sections s) of
                     Some err \<Rightarrow> (yielded s, Inl err)
                   | None \<Rightarrow> (yielded s @ [current_stitched_section s], Inr max_offset))))"

definition pending :: "merge_state \<Rightarrow> nat" where
  "pending s = length (speaker_sections s) + length (items_sections s)"

function merge_loop :: "string \<Rightarrow> real \<Rightarrow> merge_state \<Rightarrow> StitchedContent list \<times> (error + real)" where
  "merge_loop f t s =
     (case step f t s of
        Continue s' \<Rightarrow> merge_loop f t s'
      | Exhausted s' \<Rightarrow> finish s'
      | Raised e s' \<Rightarrow> (yielded s', Inl e))"
  by pat_completeness auto
termination
  by (relation "measure (\<lambda>(f, t, s). pending s)")
    (auto simp: step_def same_speaker_def new_speaker_def pending_def Let_def
      split: if_splits option.splits list.splits sum.splits)

declare merge_loop.simps [simp del]

text \<open>The body of \<^verbatim>\<open>for f in files\<close> for one file \<open>f\<close> with the document \<open>d\<close> loaded from it.\<close>

definition stitch_file :: "real \<Rightarrow> string \<Rightarrow> transcript \<Rightarrow> StitchedContent list \<times> (error + real)" where
  "stitch_file t f d =
     (case segments d of
        [] \<Rightarrow> ([], Inl RuntimeError)
      | so # srest \<Rightarrow>
          (case items d of
             [] \<Rightarrow> ([], Inl RuntimeError)
           | io # irest \<Rightarrow>
               (case ItemSection_init io of
                  Inl e \<Rightarrow> ([], Inl e)
                | Inr it \<Rightarrow>
                    merge_loop f t
                      \<lparr> speaker_sections = srest, items_sections = irest,
                        speaker_section = SpeakerSection_init so f, item_section = it,
                        current_stitched_section =
                          \<lparr>speaker_label = SpeakerSection_init so f, item_sections = [],
                           time_offset = t\<rparr>,
                        yielded = [] \<rparr>)))"

subsection \<open>The run over all files\<close>

text \<open>
  What happened to one file: the \<^verbatim>\<open>time_offset\<close> it was merged with, the blocks it yielded, and
  the \<^verbatim>\<open>max_offset\<close> it left or the exception that ended the run.
\<close>

record file_run =
  used_offset :: real
  blocks :: "StitchedContent list"
  outcome :: "error + real"

fun stitch_from :: "real \<Rightarrow> real \<Rightarrow> (string \<times> transcript) list \<Rightarrow> file_run list" where
  "stitch_from offset max_offset [] = []"
| "stitch_from offset max_offset ((f, d) # files) =
     (let offset1 = offset + max_offset;
          (bs, r) = stitch_file offset1 f d;
          run = \<lparr>used_offset = offset1, blocks = bs, outcome = r\<rparr>
      in case r of
           Inl e \<Rightarrow> [run]
         | Inr max_offset1 \<Rightarrow> run # stitch_from offset1 max_offset1 files)"

definition stitch_runs :: "(string \<times> transcript) list \<Rightarrow> file_run list" where
  "stitch_runs files = stitch_from 0 0 files"

text \<open>The blocks \<^verbatim>\<open>stitch(files)\<close> yields, and the exception it ends with, if any.\<close>

definition stitch :: "(string \<times> transcript) list \<Rightarrow> StitchedContent list \<times> error option" where
  "stitch files =
     (let runs = stitch_runs files
      in (concat (map blocks runs),
          if runs = [] then None
          else (case outcome (last runs) of Inl e \<Rightarrow> Some e | Inr _ \<Rightarrow> None)))"

subsection \<open>Writing the output\<close>

text \<open>
  The loop of the main program over the blocks: what has been written, and the exception of
  \<^verbatim>\<open>render\<close> that stopped it, if any.
\<close>

fun write_blocks :: "string \<Rightarrow> StitchedContent list \<Rightarrow> string \<times> error option" where
  "write_blocks out [] = (out, None)"
| "write_blocks out (stitched_content # rest) =
     (case render stitched_content of
        Inl e \<Rightarrow> (out, Some e)
      | Inr rendered \<Rightarrow> write_blocks (out @ rendered @ [newline]) rest)"

definition main :: "(string \<times> transcript) list \<Rightarrow> string \<times> error option" where
  "main files =
     (let (bs, r) = stitch files
      in case write_blocks [] bs of
           (out, Some e) \<Rightarrow> (out, Some e)
         | (out, None) \<Rightarrow> (out, r))"

subsection \<open>Reading a step\<close>

text \<open>The state a step ends in, and the items held by the blocks of a state, in order.\<close>

fun state_of :: "step_result \<Rightarrow> merge_state" where
  "state_of (Continue s) = s"
| "state_of (Exhausted s) = s"
| "state_of (Raised e s) = s"

definition emitted_items :: "merge_state \<Rightarrow> ItemSection list" where
  "emitted_items s = concat (map item_sections (yielded s @ [current_stitched_section s]))"

subsection \<open>The layout of the output in the words of the specification\<close>

text \<open>
  The specification shows every rendered block followed by an empty line. This definition
  follows those words, to be compared with \<^const>\<open>write_blocks\<close>, which follows the source.
\<close>

definition blank_line_layout :: "string list \<Rightarrow> string" where
  "blank_line_layout rendered = concat (map (\<lambda>r. r @ [newline, newline]) rendered)"

subsection \<open>Invariants of the loop\<close>

text \<open>
  The labels of the blocks yielded so far and of the block in progress change from each block
  to the next, and the block in progress carries the label of the segment the cursor is on.
\<close>

definition labels_inv :: "merge_state \<Rightarrow> bool" where
  "labels_inv s \<longleftrightarrow>
     distinct_adj (map (\<lambda>b. speaker (speaker_label b)) (yielded s @ [current_stitched_section s])) \<and>
     speaker (speaker_label (current_stitched_section s)) = speaker (speaker_section s)"

text \<open>
  The two cursors in the document \<open>d\<close> of the file \<open>f\<close>: the segment and the item held are the
  ones right before what the generators still have to give, and the blocks hold, in order, the
  items before the item held.
\<close>

definition cursor_inv :: "transcript \<Rightarrow> string \<Rightarrow> merge_state \<Rightarrow> bool" where
  "cursor_inv d f s \<longleftrightarrow>
     (\<exists>spre sraw ipre iraw.
        segments d = spre @ sraw # speaker_sections s \<and>
        speaker_section s = SpeakerSection_init sraw f \<and>
        items d = ipre @ iraw # items_sections s \<and>
        ItemSection_init iraw = Inr (item_section s) \<and>
        map Inr (emitted_items s) = map ItemSection_init ipre)"

text \<open>
  What a merge that ends normally has done: its \<^verbatim>\<open>max_offset\<close> is the larger of the end times
  of the last segment and of the last item, and its blocks hold the items of the file in
  order, all of them, or all but the last one when that one is not punctuation and ends after
  the last segment.
\<close>

definition final_ok :: "transcript \<Rightarrow> string \<Rightarrow> StitchedContent list \<times> (error + real) \<Rightarrow> bool" where
  "final_ok d f r \<longleftrightarrow>
     (case snd r of
        Inl _ \<Rightarrow> True
      | Inr m \<Rightarrow>
          segments d \<noteq> [] \<and> items d \<noteq> [] \<and>
          (\<exists>e. i_end_time (last (items d)) = Some e \<and>
               m = max (SpeakerSection.end_time (SpeakerSection_init (last (segments d)) f)) e \<and>
               (if i_type (last (items d)) \<noteq> ''punctuation'' \<and>
                   SpeakerSection.end_time (SpeakerSection_init (last (segments d)) f) < e
                then map Inr (concat (map item_sections (fst r))) =
                       map ItemSection_init (butlast (items d))
                else map Inr (concat (map item_sections (fst r))) =
                       map ItemSection_init (items d))))"

subsection \<open>Input objects for the examples\<close>

definition segment :: "string \<Rightarrow> real \<Rightarrow> real \<Rightarrow> segment_json" where
  "segment l a b = SegmentJson (Some a) (Some b) l 0"

definition word :: "string \<Rightarrow> real \<Rightarrow> real \<Rightarrow> item_json" where
  "word w a b = ItemJson (Some a) (Some b) [w] ''pronunciation''"

definition punct :: "string \<Rightarrow> item_json" where
  "punct w = ItemJson None None [w] ''punctuation''"

text \<open>
  A file whose diarization cuts the turn of speaker A into two segments, and the state of its
  merge when the second item is about to cross the boundary between them.
\<close>

definition resegmented :: transcript where
  "resegmented =
     \<lparr>segments = [segment ''A'' 0 1, segment ''A'' 1 2, segment ''B'' 2 3],
      items = [word ''hi'' 0 0.5, word ''bye'' 1.5 2, word ''ok'' 2.5 3]\<rparr>"

definition resegmented_state :: merge_state where
  "resegmented_state =
     \<lparr>speaker_sections = [segment ''A'' 1 2, segment ''B'' 2 3],
      items_sections = [word ''ok'' 2.5 3],
      speaker_section = SpeakerSection_init (segment ''A'' 0 1) ''f'',
      item_section = \<lparr>start_time = Some 1.5, end_time = Some 2, alternatives = [''bye''],
                       item_type = ''pronunciation''\<rparr>,
      current_stitched_section =
        \<lparr>speaker_label = SpeakerSection_init (segment ''A'' 0 1) ''f'',
         item_sections = [\<lparr>start_time = Some 0, end_time = Some 0.5, alternatives = [''hi''],
                            item_type = ''pronunciation''\<rparr>],
         time_offset = 0\<rparr>,
      yielded = []\<rparr>"

text \<open>Two blocks of one item each, as the merge yields them.\<close>

definition block_A :: StitchedContent where
  "block_A =
     \<lparr>speaker_label = SpeakerSection_init (segment ''A'' 0 1) ''f'',
      item_sections = [\<lparr>start_time = Some 0, end_time = Some 1, alternatives = [''hi''],
                         item_type = ''pronunciation''\<rparr>],
      time_offset = 0\<rparr>"

definition block_B :: StitchedContent where
  "block_B =
     \<lparr>speaker_label = SpeakerSection_init (segment ''B'' 1 2) ''f'',
      item_sections = [\<lparr>start_time = Some 1, end_time = Some 2, alternatives = [''bye''],
                         item_type = ''pronunciation''\<rparr>],
      time_offset = 0\<rparr>"

text \<open>
  Files for the examples: one whose last item ends after its last segment, one that ends
  with a full stop, one whose items end, with a full stop, before its segments do, one whose
  items end before its segments do, one with an item that starts before its segment, and
  three files in a row; and two states of a merge, one with an item that ends exactly with
  its segment and one with an item that starts before its segment.
\<close>

definition overhang :: transcript where
  "overhang = \<lparr>segments = [segment ''A'' 0 2],
                items = [word ''hi'' 0 0.5, word ''bye'' 1.5 2.5]\<rparr>"

definition ends_with_period :: transcript where
  "ends_with_period = \<lparr>segments = [segment ''A'' 0 2],
                        items = [word ''hi'' 0 0.5, punct ''.'']\<rparr>"

definition truncated_items :: transcript where
  "truncated_items = \<lparr>segments = [segment ''A'' 0 2, segment ''B'' 2 4],
                       items = [word ''hi'' 0 0.5, punct ''.'']\<rparr>"

definition early_item :: transcript where
  "early_item = \<lparr>segments = [segment ''A'' 0 2, segment ''B'' 2 4],
                  items = [word ''hi'' 0 0.5, word ''late'' 1.5 2.5]\<rparr>"

definition tie_state :: merge_state where
  "tie_state =
     \<lparr>speaker_sections = [segment ''B'' 2 4],
      items_sections = [word ''bye'' 2.5 3],
      speaker_section = SpeakerSection_init (segment ''A'' 0 2) ''f'',
      item_section = \<lparr>start_time = Some 1.5, end_time = Some 2, alternatives = [''there''],
                       item_type = ''pronunciation''\<rparr>,
      current_stitched_section =
        \<lparr>speaker_label = SpeakerSection_init (segment ''A'' 0 2) ''f'',
         item_sections = [], time_offset = 0\<rparr>,
      yielded = []\<rparr>"

definition early_state :: merge_state where
  "early_state =
     \<lparr>speaker_sections = [],
      items_sections = [],
      speaker_section = SpeakerSection_init (segment ''B'' 2 4) ''f'',
      item_section = \<lparr>start_time = Some 1.5, end_time = Some 2.5, alternatives = [''late''],
                       item_type = ''pronunciation''\<rparr>,
      current_stitched_section =
        \<lparr>speaker_label = SpeakerSection_init (segment ''B'' 2 4) ''f'',
         item_sections = [], time_offset = 0\<rparr>,
      yielded = []\<rparr>"

definition three_files :: "(string \<times> transcript) list" where
  "three_files =
     [(''a'', \<lparr>segments = [segment ''A'' 0 2], items = [word ''hi'' 0 0.5]\<rparr>),
      (''b'', \<lparr>segments = [segment ''A'' 0 3], items = [word ''yo'' 0 1]\<rparr>),
      (''c'', \<lparr>segments = [segment ''B'' 0 1], items = [word ''ok'' 0 1]\<rparr>)]"

definition desync_scenario :: transcript where
  "desync_scenario = \<lparr>segments = [segment ''A'' 0 2, segment ''B'' 2 4],
                       items = [word ''hi'' 0 0.5]\<rparr>"

section \<open>Properties\<close>

subsection \<open>Evaluation and general facts about the loop\<close>

lemmas format_eval = format_duration_def timedelta_of_seconds_def py_round_def format_02d_def
  str_nat.simps digit_char_def Let_def

lemmas step_defs = step_def same_speaker_def new_speaker_def Let_def

lemmas eval_defs = stitch_file_def merge_loop.simps step_defs finish_def
  assert_iterator_empty_segments_def assert_iterator_empty_items_def
  ItemSection_init_def SpeakerSection_init_def is_punctuation_def append_def
  segment_def word_def punct_def

lemma step_Continue_pending:
  "step f t s = Continue s' \<Longrightarrow> pending s' < pending s"
  by (auto simp: step_defs pending_def split: if_splits option.splits list.splits sum.splits)

text \<open>
  An invariant of the states of the loop carries over to what the merge returns: it suffices
  that every step keeps it and that it gives the property at each of the two ways out.
\<close>

lemma merge_loop_rule:
  assumes "I s"
    and "\<And>s s'. I s \<Longrightarrow> step f t s = Continue s' \<Longrightarrow> I s'"
    and "\<And>s s'. I s \<Longrightarrow> step f t s = Exhausted s' \<Longrightarrow> Q (finish s')"
    and "\<And>s e s'. I s \<Longrightarrow> step f t s = Raised e s' \<Longrightarrow> Q (yielded s', Inl e)"
  shows "Q (merge_loop f t s)"
  using assms(1)
proof (induction "pending s" arbitrary: s rule: less_induct)
  case less
  show ?case
  proof (cases "step f t s")
    case (Continue s')
    then have "Q (merge_loop f t s')"
      using less assms(2) step_Continue_pending by blast
    with Continue show ?thesis by (simp add: merge_loop.simps [of f t s])
  next
    case (Exhausted s')
    with less assms(3) show ?thesis by (simp add: merge_loop.simps [of f t s])
  next
    case (Raised e s')
    with less assms(4) show ?thesis by (simp add: merge_loop.simps [of f t s])
  qed
qed

lemma fst_finish:
  "fst (finish s) = yielded s \<or> fst (finish s) = yielded s @ [current_stitched_section s]"
  by (auto simp: finish_def Let_def split: option.splits)

subsection \<open>The assignment of an item\<close>

text \<open>
  Claim C3. In every state of the loop, when the item held is punctuation or ends no later than
  the segment held (at the same time included), the step leaves the segment cursor, the
  segments to come and the blocks yielded as they are; unless the check of claim C8 stops it
  with an exception, it appends the item to the block in progress and pulls the next item: the
  loop goes on with that item, or the items are exhausted, or the next item is malformed.
  Otherwise (the item is not punctuation and ends after the segment) the step leaves the item
  cursor, the items to come and the items held by the blocks as they are, and pulls the next
  segment: the loop goes on with it, or the segments are exhausted.
\<close>

theorem C3_assignment_rule:
  "(is_punctuation (item_section s) \<or>
    (\<exists>e. ItemSection.end_time (item_section s) = Some e \<and>
         e \<le> SpeakerSection.end_time (speaker_section s)) \<longrightarrow>
      speaker_section (state_of (step f t s)) = speaker_section s \<and>
      speaker_sections (state_of (step f t s)) = speaker_sections s \<and>
      yielded (state_of (step f t s)) = yielded s \<and>
      (if is_punctuation (item_section s) \<or>
          (\<exists>st. ItemSection.start_time (item_section s) = Some st \<and>
                SpeakerSection.start_time (speaker_section s) \<le> st)
       then current_stitched_section (state_of (step f t s)) =
              append (current_stitched_section s) (item_section s) \<and>
            (case items_sections s of
               [] \<Rightarrow> step f t s = Exhausted (state_of (step f t s))
             | o' # rest \<Rightarrow>
                 items_sections (state_of (step f t s)) = rest \<and>
                 (case ItemSection_init o' of
                    Inl e \<Rightarrow> step f t s = Raised e (state_of (step f t s))
                  | Inr it' \<Rightarrow> step f t s = Continue (state_of (step f t s)) \<and>
                      item_section (state_of (step f t s)) = it'))
       else (\<exists>e. step f t s = Raised e s))) \<and>
   (\<not> is_punctuation (item_section s) \<and>
    (\<exists>e. ItemSection.end_time (item_section s) = Some e \<and>
         SpeakerSection.end_time (speaker_section s) < e) \<longrightarrow>
      item_section (state_of (step f t s)) = item_section s \<and>
      items_sections (state_of (step f t s)) = items_sections s \<and>
      emitted_items (state_of (step f t s)) = emitted_items s \<and>
      (case speaker_sections s of
         [] \<Rightarrow> step f t s = Exhausted s
       | o' # rest \<Rightarrow>
           step f t s = Continue (state_of (step f t s)) \<and>
           speaker_section (state_of (step f t s)) = SpeakerSection_init o' f \<and>
           speaker_sections (state_of (step f t s)) = rest))"
  by (auto simp: step_defs emitted_items_def append_def split: option.splits list.splits sum.splits)

text \<open>
  The theorem at \<^const>\<open>tie_state\<close>, whose item ends at 2 as its segment does, and at
  \<^const>\<open>resegmented_state\<close>, whose item ends at 2 and its segment at 1.
\<close>

theorem C3_assignment_rule_witness:
  "ItemSection.end_time (item_section tie_state) = Some 2 \<and>
   SpeakerSection.end_time (speaker_section tie_state) = 2 \<and>
   step ''f'' 0 tie_state = Continue (state_of (step ''f'' 0 tie_state)) \<and>
   speaker_section (state_of (step ''f'' 0 tie_state)) = speaker_section tie_state \<and>
   speaker_sections (state_of (step ''f'' 0 tie_state)) = [segment ''B'' 2 4] \<and>
   item_sections (current_stitched_section (state_of (step ''f'' 0 tie_state))) =
     [item_section tie_state] \<and>
   items_sections (state_of (step ''f'' 0 tie_state)) = [] \<and>
   ItemSection.end_time (item_section resegmented_state) = Some 2 \<and>
   SpeakerSection.end_time (speaker_section resegmented_state) = 1 \<and>
   step ''f'' 0 resegmented_state = Continue (state_of (step ''f'' 0 resegmented_state)) \<and>
   item_section (state_of (step ''f'' 0 resegmented_state)) = item_section resegmented_state \<and>
   items_sections (state_of (step ''f'' 0 resegmented_state)) = items_sections resegmented_state \<and>
   emitted_items (state_of (step ''f'' 0 resegmented_state)) = emitted_items resegmented_state \<and>
   speaker_sections (state_of (step ''f'' 0 resegmented_state)) = [segment ''B'' 2 3]"
  using C3_assignment_rule [of tie_state "''f''" 0] C3_assignment_rule [of resegmented_state "''f''" 0]
  by (simp add: tie_state_def resegmented_state_def eval_defs emitted_items_def)

subsection \<open>The check on the start times\<close>

text \<open>
  Claim C8. A step that would append an item that is not punctuation and starts before the
  segment held raises the assertion instead, with the state as it was: the item is in no
  block, and the merge ends there with the blocks already yielded. Conversely an item that is
  not punctuation and that a step has appended starts no earlier than the segment held.
\<close>

theorem C8_ordering_check:
  "(\<not> is_punctuation (item_section s) \<and>
    (\<exists>e. ItemSection.end_time (item_section s) = Some e \<and>
         e \<le> SpeakerSection.end_time (speaker_section s)) \<and>
    (\<exists>st. ItemSection.start_time (item_section s) = Some st \<and>
          st < SpeakerSection.start_time (speaker_section s)) \<longrightarrow>
      step f t s = Raised OrderingAssertion s \<and>
      merge_loop f t s = (yielded s, Inl OrderingAssertion)) \<and>
   (\<not> is_punctuation (item_section s) \<and>
    item_sections (current_stitched_section (state_of (step f t s))) =
      item_sections (current_stitched_section s) @ [item_section s] \<longrightarrow>
      (\<exists>st. ItemSection.start_time (item_section s) = Some st \<and>
            SpeakerSection.start_time (speaker_section s) \<le> st))"
  by (auto simp: step_defs append_def merge_loop.simps [of f t s]
      split: option.splits list.splits sum.splits if_splits)

text \<open>
  The theorem at \<^const>\<open>early_state\<close>, whose item starts at 1.5 in a segment that starts at 2
  (the file \<^const>\<open>early_item\<close> reaches it after yielding its first block), and at
  \<^const>\<open>tie_state\<close>, whose item is appended.
\<close>

theorem C8_ordering_check_witness:
  "step ''f'' 0 early_state = Raised OrderingAssertion early_state \<and>
   merge_loop ''f'' 0 early_state = ([], Inl OrderingAssertion) \<and>
   stitch_file 0 ''f'' early_item =
     ([\<lparr>speaker_label = SpeakerSection_init (segment ''A'' 0 2) ''f'',
        item_sections = [\<lparr>start_time = Some 0, end_time = Some 0.5, alternatives = [''hi''],
                           item_type = ''pronunciation''\<rparr>],
        time_offset = 0\<rparr>],
      Inl OrderingAssertion) \<and>
   item_sections (current_stitched_section (state_of (step ''f'' 0 tie_state))) =
     item_sections (current_stitched_section tie_state) @ [item_section tie_state] \<and>
   ItemSection.start_time (item_section tie_state) = Some 1.5 \<and>
   SpeakerSection.start_time (speaker_section tie_state) = 0"
  using C8_ordering_check [of early_state "''f''" 0] C8_ordering_check [of tie_state "''f''" 0]
  by (simp add: early_state_def tie_state_def early_item_def eval_defs)

subsection \<open>Speaker labels of consecutive blocks\<close>

lemma labels_inv_Continue:
  "labels_inv s \<Longrightarrow> step f t s = Continue s' \<Longrightarrow> labels_inv s'"
  by (auto simp: labels_inv_def step_defs append_def distinct_adj_append_iff
      split: if_splits option.splits list.splits sum.splits)

lemma labels_inv_stop:
  "labels_inv s \<Longrightarrow> step f t s = Exhausted s' \<or> step f t s = Raised e s' \<Longrightarrow>
   distinct_adj (map (\<lambda>b. speaker (speaker_label b)) (yielded s' @ [current_stitched_section s']))"
  by (auto simp: labels_inv_def step_defs append_def distinct_adj_append_iff
      split: if_splits option.splits list.splits sum.splits)

lemma merge_loop_labels:
  assumes "labels_inv s"
  shows "distinct_adj (map (\<lambda>b. speaker (speaker_label b)) (fst (merge_loop f t s)))"
proof (rule merge_loop_rule [where I = labels_inv and f = f and t = t, OF assms])
  fix s s' assume "labels_inv s" "step f t s = Continue s'"
  then show "labels_inv s'" by (rule labels_inv_Continue)
next
  fix s s' assume "labels_inv s" "step f t s = Exhausted s'"
  then have "distinct_adj (map (\<lambda>b. speaker (speaker_label b)) (yielded s' @ [current_stitched_section s']))"
    using labels_inv_stop by blast
  then show "distinct_adj (map (\<lambda>b. speaker (speaker_label b)) (fst (finish s')))"
    using fst_finish [of s'] by (auto simp: distinct_adj_append_iff)
next
  fix s e s' assume "labels_inv s" "step f t s = Raised e s'"
  then have "distinct_adj (map (\<lambda>b. speaker (speaker_label b)) (yielded s' @ [current_stitched_section s']))"
    using labels_inv_stop by blast
  then show "distinct_adj (map (\<lambda>b. speaker (speaker_label b)) (fst (yielded s', Inl e)))"
    by (auto simp: distinct_adj_append_iff)
qed

lemma stitch_file_labels:
  "distinct_adj (map (\<lambda>b. speaker (speaker_label b)) (fst (stitch_file t f d)))"
  by (auto simp: stitch_file_def labels_inv_def intro!: merge_loop_labels split: list.splits sum.splits)

text \<open>
  Claim C2. For one file, whatever the way the merge ends, any two consecutive blocks it has
  yielded carry different speaker labels. And a step that moves the segment cursor to a segment
  with the label of the segment before it yields nothing and changes nothing else: the block in
  progress, the item cursor and the items still to come stay as they are, so the items that
  follow go into the same block.
\<close>

theorem C2_speaker_change_fidelity:
  "distinct_adj (map (\<lambda>b. speaker (speaker_label b)) (fst (stitch_file t f d))) \<and>
   (\<not> is_punctuation (item_section s) \<and>
    (\<exists>e. ItemSection.end_time (item_section s) = Some e \<and>
         SpeakerSection.end_time (speaker_section s) < e) \<and>
    speaker_sections s = o' # rest \<and>
    j_speaker_label o' = speaker (speaker_section s) \<longrightarrow>
    step f t s =
      Continue (s\<lparr>speaker_sections := rest, speaker_section := SpeakerSection_init o' f\<rparr>))"
  by (auto simp: stitch_file_labels step_defs SpeakerSection_init_def)

text \<open>
  The theorem at the file \<^const>\<open>resegmented\<close>: its three segments A, A, B give two blocks,
  labelled A and B, and the step from the first segment to the second yields nothing.
\<close>

theorem C2_speaker_change_fidelity_witness:
  "map (\<lambda>b. speaker (speaker_label b)) (fst (stitch_file 0 ''f'' resegmented)) = [''A'', ''B''] \<and>
   distinct_adj (map (\<lambda>b. speaker (speaker_label b)) (fst (stitch_file 0 ''f'' resegmented))) \<and>
   step ''f'' 0 resegmented_state =
     Continue (resegmented_state\<lparr>speaker_sections := [segment ''B'' 2 3],
                 speaker_section := SpeakerSection_init (segment ''A'' 1 2) ''f''\<rparr>)"
  using C2_speaker_change_fidelity [of 0 "''f''" resegmented resegmented_state
      "segment ''A'' 1 2" "[segment ''B'' 2 3]"]
  by (simp add: resegmented_def resegmented_state_def eval_defs)

subsection \<open>The end of a merge\<close>

lemma ItemSection_init_Inr:
  "ItemSection_init o' = Inr it \<Longrightarrow>
   ItemSection.end_time it = i_end_time o' \<and> ItemSection.start_time it = i_start_time o' \<and>
   item_type it = i_type o' \<and> alternatives it = i_alternatives o'"
  by (auto simp: ItemSection_init_def Let_def split: if_splits)

lemma cursor_inv_Continue:
  assumes "cursor_inv d f s" and "step f t s = Continue s'"
  shows "cursor_inv d f s'"
proof -
  from assms(1) obtain spre sraw ipre iraw where inv:
    "segments d = spre @ sraw # speaker_sections s"
    "speaker_section s = SpeakerSection_init sraw f"
    "items d = ipre @ iraw # items_sections s"
    "ItemSection_init iraw = Inr (item_section s)"
    "map Inr (emitted_items s) = map ItemSection_init ipre"
    unfolding cursor_inv_def by blast
  from assms(2) consider
    (consume) o' rest it' where "items_sections s = o' # rest" "ItemSection_init o' = Inr it'"
      "s' = s\<lparr>current_stitched_section := append (current_stitched_section s) (item_section s),
               items_sections := rest, item_section := it'\<rparr>"
  | (advance) o' rest where "speaker_sections s = o' # rest"
      "speaker_sections s' = rest" "speaker_section s' = SpeakerSection_init o' f"
      "items_sections s' = items_sections s" "item_section s' = item_section s"
      "emitted_items s' = emitted_items s"
    by (auto simp: step_defs emitted_items_def split: if_splits option.splits list.splits sum.splits)
  then show ?thesis
  proof cases
    case consume
    have "items d = (ipre @ [iraw]) @ o' # items_sections s'"
      using inv(3) consume by simp
    moreover have "map Inr (emitted_items s') = map ItemSection_init (ipre @ [iraw])"
      using inv(4,5) consume by (simp add: emitted_items_def append_def)
    moreover have "segments d = spre @ sraw # speaker_sections s'" "speaker_section s' = SpeakerSection_init sraw f"
      using inv(1,2) consume by simp_all
    moreover have "ItemSection_init o' = Inr (item_section s')"
      using consume by simp
    ultimately show ?thesis unfolding cursor_inv_def by blast
  next
    case advance
    have "segments d = (spre @ [sraw]) @ o' # speaker_sections s'"
      using inv(1) advance by simp
    moreover have "items d = ipre @ iraw # items_sections s'" "ItemSection_init iraw = Inr (item_section s')"
      "map Inr (emitted_items s') = map ItemSection_init ipre"
      using inv(3,4,5) advance by simp_all
    ultimately show ?thesis unfolding cursor_inv_def using advance(3) by blast
  qed
qed

lemma finish_Inr:
  "snd (finish s) = Inr m \<longleftrightarrow>
     speaker_sections s = [] \<and> items_sections s = [] \<and>
     (\<exists>e. ItemSection.end_time (item_section s) = Some e \<and>
          m = max (SpeakerSection.end_time (speaker_section s)) e)"
  by (auto simp: finish_def Let_def assert_iterator_empty_segments_def
      assert_iterator_empty_items_def split: option.splits list.splits sum.splits)

lemma finish_Inr_fst:
  "snd (finish s) = Inr m \<Longrightarrow> fst (finish s) = yielded s @ [current_stitched_section s]"
  by (auto simp: finish_def Let_def split: option.splits)

lemma same_speaker_Exhausted:
  "same_speaker s = Exhausted s' \<Longrightarrow>
   items_sections s = [] \<and>
   s' = s\<lparr>current_stitched_section := append (current_stitched_section s) (item_section s)\<rparr>"
  by (simp add: same_speaker_def Let_def split: if_splits option.splits list.splits sum.splits)

lemma new_speaker_Exhausted:
  "new_speaker f t s = Exhausted s' \<Longrightarrow> speaker_sections s = [] \<and> s' = s"
  by (simp add: new_speaker_def Let_def split: if_splits list.splits)

lemma step_Exhausted_D:
  assumes "step f t s = Exhausted s'"
  shows "(items_sections s = [] \<and>
          s' = s\<lparr>current_stitched_section := append (current_stitched_section s) (item_section s)\<rparr> \<and>
          (is_punctuation (item_section s) \<or>
           (\<exists>e. ItemSection.end_time (item_section s) = Some e \<and>
                e \<le> SpeakerSection.end_time (speaker_section s)))) \<or>
         (speaker_sections s = [] \<and> s' = s \<and> \<not> is_punctuation (item_section s) \<and>
          (\<exists>e. ItemSection.end_time (item_section s) = Some e \<and>
               SpeakerSection.end_time (speaker_section s) < e))"
proof (cases "is_punctuation (item_section s)")
  case True
  with assms have "same_speaker s = Exhausted s'" by (simp add: step_def)
  then show ?thesis using same_speaker_Exhausted True by blast
next
  case False
  show ?thesis
  proof (cases "ItemSection.end_time (item_section s)")
    case None
    with assms False show ?thesis by (simp add: step_def)
  next
    case (Some e)
    show ?thesis
    proof (cases "e \<le> SpeakerSection.end_time (speaker_section s)")
      case True
      with assms False Some have "same_speaker s = Exhausted s'" by (simp add: step_def)
      then show ?thesis using same_speaker_Exhausted Some True by blast
    next
      case le: False
      with assms False Some have "new_speaker f t s = Exhausted s'" by (simp add: step_def)
      then have "speaker_sections s = [] \<and> s' = s" by (rule new_speaker_Exhausted)
      with False Some le show ?thesis by simp
    qed
  qed
qed

lemma cursor_inv_Exhausted:
  assumes "cursor_inv d f s" and "step f t s = Exhausted s'"
  shows "final_ok d f (finish s')"
proof (cases "snd (finish s')")
  case (Inl e)
  then show ?thesis by (simp add: final_ok_def)
next
  case (Inr m)
  from assms(1) obtain spre sraw ipre iraw where inv:
    "segments d = spre @ sraw # speaker_sections s"
    "speaker_section s = SpeakerSection_init sraw f"
    "items d = ipre @ iraw # items_sections s"
    "ItemSection_init iraw = Inr (item_section s)"
    "map Inr (emitted_items s) = map ItemSection_init ipre"
    unfolding cursor_inv_def by blast
  note it = ItemSection_init_Inr [OF inv(4)]
  from Inr obtain e where fin: "speaker_sections s' = []" "items_sections s' = []"
    "ItemSection.end_time (item_section s') = Some e"
    "m = max (SpeakerSection.end_time (speaker_section s')) e"
    unfolding finish_Inr by blast
  have bs: "fst (finish s') = yielded s' @ [current_stitched_section s']"
    using Inr by (rule finish_Inr_fst)
  have ne: "segments d \<noteq> []" "items d \<noteq> []"
    using inv(1,3) by simp_all
  from step_Exhausted_D [OF assms(2)] consider
    (tokens) "items_sections s = []"
      "s' = s\<lparr>current_stitched_section := append (current_stitched_section s) (item_section s)\<rparr>"
      "is_punctuation (item_section s) \<or>
       (\<exists>e. ItemSection.end_time (item_section s) = Some e \<and>
            e \<le> SpeakerSection.end_time (speaker_section s))"
  | (segs) e' where "speaker_sections s = []" "s' = s" "\<not> is_punctuation (item_section s)"
      "ItemSection.end_time (item_section s) = Some e'"
      "SpeakerSection.end_time (speaker_section s) < e'"
    by blast
  then show ?thesis
  proof cases
    case tokens
    have same: "speaker_sections s = []" "items_sections s = []" "item_section s' = item_section s"
      "speaker_section s' = speaker_section s"
      using fin tokens by simp_all
    have last: "last (segments d) = sraw" "last (items d) = iraw"
      using inv(1,3) same by simp_all
    have em: "map Inr (concat (map item_sections (fst (finish s')))) = map ItemSection_init (items d)"
      using inv(3,4,5) tokens same bs by (simp add: emitted_items_def append_def)
    have e: "i_end_time (last (items d)) = Some e"
      using it fin(3) same last by simp
    have m: "m = max (SpeakerSection.end_time (SpeakerSection_init (last (segments d)) f)) e"
      using fin(4) same inv(2) last by simp
    have nov: "\<not> (i_type (last (items d)) \<noteq> ''punctuation'' \<and>
        SpeakerSection.end_time (SpeakerSection_init (last (segments d)) f) < e)"
      using tokens(3) it e last inv(2) by (auto simp: is_punctuation_def)
    have cov: "if i_type (last (items d)) \<noteq> ''punctuation'' \<and>
                  SpeakerSection.end_time (SpeakerSection_init (last (segments d)) f) < e
               then map Inr (concat (map item_sections (fst (finish s')))) =
                      map ItemSection_init (butlast (items d))
               else map Inr (concat (map item_sections (fst (finish s')))) =
                      map ItemSection_init (items d)"
      by (simp only: if_not_P [OF nov] em)
    show ?thesis
      unfolding final_ok_def Inr sum.case using ne e m cov by blast
  next
    case (segs e')
    have same: "items_sections s = []" using fin segs by simp
    have last: "last (segments d) = sraw" "last (items d) = iraw" "butlast (items d) = ipre"
      using inv(1,3) same segs by simp_all
    have e': "e' = e" using segs fin by simp
    have em: "map Inr (concat (map item_sections (fst (finish s')))) =
                map ItemSection_init (butlast (items d))"
      using inv(5) segs bs last by (simp add: emitted_items_def)
    have e: "i_end_time (last (items d)) = Some e"
      using it fin(3) segs last by simp
    have m: "m = max (SpeakerSection.end_time (SpeakerSection_init (last (segments d)) f)) e"
      using fin(4) segs inv(2) last by simp
    have ov: "i_type (last (items d)) \<noteq> ''punctuation'' \<and>
        SpeakerSection.end_time (SpeakerSection_init (last (segments d)) f) < e"
      using segs(3,5) it e' inv(2) last by (simp add: is_punctuation_def)
    have cov: "if i_type (last (items d)) \<noteq> ''punctuation'' \<and>
                  SpeakerSection.end_time (SpeakerSection_init (last (segments d)) f) < e
               then map Inr (concat (map item_sections (fst (finish s')))) =
                      map ItemSection_init (butlast (items d))
               else map Inr (concat (map item_sections (fst (finish s')))) =
                      map ItemSection_init (items d)"
      by (simp only: if_P [OF ov] em)
    show ?thesis
      unfolding final_ok_def Inr sum.case using ne e m cov by blast
  qed
qed

lemma merge_loop_final_ok:
  assumes "cursor_inv d f s"
  shows "final_ok d f (merge_loop f t s)"
proof (rule merge_loop_rule [where I = "cursor_inv d f" and f = f and t = t, OF assms])
  fix s s' assume "cursor_inv d f s" "step f t s = Continue s'"
  then show "cursor_inv d f s'" by (rule cursor_inv_Continue)
next
  fix s s' assume "cursor_inv d f s" "step f t s = Exhausted s'"
  then show "final_ok d f (finish s')" by (rule cursor_inv_Exhausted)
next
  fix s e s'
  show "final_ok d f (yielded s', Inl e)" by (simp add: final_ok_def)
qed

lemma stitch_file_final_ok: "final_ok d f (stitch_file t f d)"
proof (cases "segments d")
  case Nil
  then show ?thesis by (simp add: stitch_file_def final_ok_def)
next
  case (Cons so srest)
  note segs = this
  show ?thesis
  proof (cases "items d")
    case Nil
    with segs show ?thesis by (simp add: stitch_file_def final_ok_def)
  next
    case (Cons io irest)
    show ?thesis
    proof (cases "ItemSection_init io")
      case (Inl e)
      with segs Cons show ?thesis by (simp add: stitch_file_def final_ok_def)
    next
      case (Inr it)
      have "cursor_inv d f
              \<lparr> speaker_sections = srest, items_sections = irest,
                speaker_section = SpeakerSection_init so f, item_section = it,
                current_stitched_section =
                  \<lparr>speaker_label = SpeakerSection_init so f, item_sections = [], time_offset = t\<rparr>,
                yielded = [] \<rparr>"
        unfolding cursor_inv_def
        by (rule exI [of _ "[]"], rule exI [of _ so], rule exI [of _ "[]"], rule exI [of _ io])
          (simp add: segs Cons Inr emitted_items_def)
      from merge_loop_final_ok [OF this, of t] show ?thesis
        using segs Cons Inr by (simp add: stitch_file_def)
    qed
  qed
qed

lemma stitch_file_Inr:
  assumes "snd (stitch_file t f d) = Inr m"
  shows "segments d \<noteq> [] \<and> items d \<noteq> [] \<and>
         (\<exists>e. i_end_time (last (items d)) = Some e \<and>
              m = max (SpeakerSection.end_time (SpeakerSection_init (last (segments d)) f)) e)"
  using stitch_file_final_ok [of d f t] assms by (auto simp: final_ok_def split: if_splits)

lemma stitch_from_nth:
  "n < length (stitch_from a b files) \<Longrightarrow>
   n < length files \<and>
   (blocks (stitch_from a b files ! n), outcome (stitch_from a b files ! n)) =
     stitch_file (used_offset (stitch_from a b files ! n)) (fst (files ! n)) (snd (files ! n))"
proof (induction files arbitrary: a b n)
  case Nil
  then show ?case by simp
next
  case (Cons fd files)
  obtain f d where fd: "fd = (f, d)" by (cases fd)
  obtain bs r where sf: "stitch_file (a + b) f d = (bs, r)" by (cases "stitch_file (a + b) f d")
  show ?case
  proof (cases n)
    case 0
    then show ?thesis using fd sf by (cases r) (simp_all add: Let_def)
  next
    case (Suc k)
    show ?thesis
    proof (cases r)
      case (Inl e)
      with Cons.prems fd sf Suc show ?thesis by (simp add: Let_def)
    next
      case (Inr m)
      with Cons.prems fd sf Suc have "k < length (stitch_from (a + b) m files)"
        by (simp add: Let_def)
      from Cons.IH [OF this] show ?thesis using fd sf Suc Inr by (simp add: Let_def)
    qed
  qed
qed

lemma stitch_from_offsets:
  "n < length (stitch_from a b files) \<Longrightarrow>
   \<exists>ms. map outcome (take n (stitch_from a b files)) = map Inr ms \<and>
        used_offset (stitch_from a b files ! n) = a + b + sum_list ms"
proof (induction files arbitrary: a b n)
  case Nil
  then show ?case by simp
next
  case (Cons fd files)
  obtain f d where fd: "fd = (f, d)" by (cases fd)
  obtain bs r where sf: "stitch_file (a + b) f d = (bs, r)" by (cases "stitch_file (a + b) f d")
  show ?case
  proof (cases n)
    case 0
    then show ?thesis using fd sf by (cases r) (simp_all add: Let_def)
  next
    case (Suc k)
    show ?thesis
    proof (cases r)
      case (Inl e)
      with Cons.prems fd sf Suc show ?thesis by (simp add: Let_def)
    next
      case (Inr m)
      with Cons.prems fd sf Suc have "k < length (stitch_from (a + b) m files)"
        by (simp add: Let_def)
      from Cons.IH [OF this] obtain ms where
        ms: "map outcome (take k (stitch_from (a + b) m files)) = map Inr ms"
          "used_offset (stitch_from (a + b) m files ! k) = a + b + m + sum_list ms"
        by blast
      have "map outcome (take n (stitch_from a b (fd # files))) = map Inr (m # ms)"
        using fd sf Suc Inr ms(1) by (simp add: Let_def)
      moreover have "used_offset (stitch_from a b (fd # files) ! n) = a + b + sum_list (m # ms)"
        using fd sf Suc Inr ms(2) by (simp add: Let_def)
      ultimately show ?thesis by blast
    qed
  qed
qed

lemma stitch_from_sorted:
  assumes "\<forall>(f, d) \<in> set files. \<forall>sg \<in> set (segments d). \<forall>x. j_end_time sg = Some x \<longrightarrow> 0 \<le> x"
  shows "sorted (map used_offset (stitch_from a b files)) \<and>
         (\<forall>r \<in> set (stitch_from a b files). a + b \<le> used_offset r)"
  using assms
proof (induction files arbitrary: a b)
  case Nil
  then show ?case by simp
next
  case (Cons fd files)
  obtain f d where fd: "fd = (f, d)" by (cases fd)
  obtain bs r where sf: "stitch_file (a + b) f d = (bs, r)" by (cases "stitch_file (a + b) f d")
  show ?case
  proof (cases r)
    case (Inl e)
    then show ?thesis using fd sf by (simp add: Let_def)
  next
    case (Inr m)
    then have "snd (stitch_file (a + b) f d) = Inr m" using sf by simp
    from stitch_file_Inr [OF this] obtain e where
      ne: "segments d \<noteq> []" and
      m: "m = max (SpeakerSection.end_time (SpeakerSection_init (last (segments d)) f)) e"
      by blast
    have "last (segments d) \<in> set (segments d)" using ne by simp
    then have "\<forall>x. j_end_time (last (segments d)) = Some x \<longrightarrow> 0 \<le> x"
      using Cons.prems fd by auto
    then have "0 \<le> SpeakerSection.end_time (SpeakerSection_init (last (segments d)) f)"
      by (simp add: SpeakerSection_init_def split: option.splits)
    then have m0: "0 \<le> m" using m by simp
    have rest: "\<forall>(f, d) \<in> set files. \<forall>sg \<in> set (segments d). \<forall>x. j_end_time sg = Some x \<longrightarrow> 0 \<le> x"
      using Cons.prems by simp
    from Cons.IH [OF rest, of "a + b" m] have
      ih: "sorted (map used_offset (stitch_from (a + b) m files))"
        "\<forall>r \<in> set (stitch_from (a + b) m files). a + b + m \<le> used_offset r"
      by blast+
    show ?thesis
      using fd sf Inr ih m0 by (fastforce simp: Let_def)
  qed
qed

text \<open>
  Claim C1 fails on the file \<^const>\<open>overhang\<close>: its last item, bye, ends at 2.5, after the
  only segment, which ends at 2. The step for bye asks for the next segment, the segments are
  exhausted, and the handler finds both generators empty: the merge ends normally with the one
  block that holds hi. The item bye, pulled but not appended, is in no block.
\<close>

theorem C1_last_item_dropped:
  "stitch_file 0 ''f'' overhang =
     ([\<lparr>speaker_label = SpeakerSection_init (segment ''A'' 0 2) ''f'',
        item_sections = [\<lparr>start_time = Some 0, end_time = Some 0.5, alternatives = [''hi''],
                           item_type = ''pronunciation''\<rparr>],
        time_offset = 0\<rparr>],
      Inr 2.5)"
  by (simp add: overhang_def eval_defs)

text \<open>
  What holds of the items of a file whose merge ends normally: the blocks hold them in their
  order, all of them, except that the last item is left out when it is not punctuation and ends
  after the last segment.
\<close>

theorem stitch_file_coverage:
  "snd (stitch_file t f d) = Inr m \<longrightarrow>
     (\<exists>e. i_end_time (last (items d)) = Some e \<and>
          (if i_type (last (items d)) \<noteq> ''punctuation'' \<and>
              SpeakerSection.end_time (SpeakerSection_init (last (segments d)) f) < e
           then map Inr (concat (map item_sections (fst (stitch_file t f d)))) =
                  map ItemSection_init (butlast (items d))
           else map Inr (concat (map item_sections (fst (stitch_file t f d)))) =
                  map ItemSection_init (items d)))"
proof
  assume a: "snd (stitch_file t f d) = Inr m"
  show "\<exists>e. i_end_time (last (items d)) = Some e \<and>
          (if i_type (last (items d)) \<noteq> ''punctuation'' \<and>
              SpeakerSection.end_time (SpeakerSection_init (last (segments d)) f) < e
           then map Inr (concat (map item_sections (fst (stitch_file t f d)))) =
                  map ItemSection_init (butlast (items d))
           else map Inr (concat (map item_sections (fst (stitch_file t f d)))) =
                  map ItemSection_init (items d))"
    using stitch_file_final_ok [of d f t] unfolding final_ok_def a sum.case by blast
qed

theorem stitch_file_coverage_witness:
  "snd (stitch_file 0 ''f'' resegmented) = Inr 3 \<and>
   map Inr (concat (map item_sections (fst (stitch_file 0 ''f'' resegmented)))) =
     map ItemSection_init (items resegmented)"
  using stitch_file_coverage [of 0 "''f''" resegmented 3]
  by (simp add: resegmented_def eval_defs)

text \<open>
  Claim C4 fails on the file \<^const>\<open>truncated_items\<close>: its items are exhausted, with a full
  stop, while segment B has not been pulled, and the exception raised is the \<^verbatim>\<open>TypeError\<close>
  of \<^verbatim>\<open>max\<close> on the absent end time of the full stop, before \<^verbatim>\<open>assert_iterator_empty\<close> is
  called. And on the file \<^const>\<open>overhang\<close> the segments are exhausted while the last item is
  still waiting for its segment, and the merge ends normally.
\<close>

theorem C4_desync_with_final_punctuation:
  "stitch_file 0 ''f'' truncated_items = ([], Inl TypeError) \<and>
   snd (stitch_file 0 ''f'' overhang) = Inr 2.5"
  by (simp add: truncated_items_def overhang_def eval_defs)

text \<open>
  What holds of a handler that finds a generator not yet exhausted: it raises, and the block
  in progress is not yielded. When the items are exhausted while a segment is left and the
  last item has an end time, the exception is the assertion of \<^verbatim>\<open>assert_iterator_empty\<close>.
\<close>

theorem desync_is_fatal:
  "(speaker_sections s \<noteq> [] \<or> items_sections s \<noteq> [] \<longrightarrow>
      (\<exists>e. finish s = (yielded s, Inl e))) \<and>
   (step f t s = Exhausted s' \<and> speaker_sections s' \<noteq> [] \<and>
    ItemSection.end_time (item_section s') \<noteq> None \<longrightarrow>
      merge_loop f t s = (yielded s', Inl DesyncAssertion))"
  by (auto simp: finish_def Let_def assert_iterator_empty_segments_def
      assert_iterator_empty_items_def merge_loop.simps [of f t s]
      split: option.splits list.splits sum.splits)

theorem desync_is_fatal_witness:
  "stitch_file 0 ''f'' desync_scenario = ([], Inl DesyncAssertion) \<and>
   finish (tie_state\<lparr>items_sections := []\<rparr>) = ([], Inl DesyncAssertion)"
  using desync_is_fatal [of "tie_state\<lparr>items_sections := []\<rparr>" "''f''" 0 undefined]
  by (simp add: desync_scenario_def tie_state_def eval_defs)

text \<open>
  Claim C10. The handler raises \<^verbatim>\<open>TypeError\<close> when the item held has no end time, and so does
  the merge when a step exhausts a generator in such a state; a file whose last item has no
  end time never ends its merge normally.
\<close>

theorem C10_final_item_needs_end_time:
  "(ItemSection.end_time (item_section s) = None \<longrightarrow> finish s = (yielded s, Inl TypeError)) \<and>
   (step f t s = Exhausted s' \<and> ItemSection.end_time (item_section s') = None \<longrightarrow>
      merge_loop f t s = (yielded s', Inl TypeError)) \<and>
   (i_end_time (last (items d)) = None \<longrightarrow> (\<exists>e. snd (stitch_file t f d) = Inl e))"
proof (intro conjI impI)
  assume "ItemSection.end_time (item_section s) = None"
  then show "finish s = (yielded s, Inl TypeError)" by (simp add: finish_def)
next
  assume "step f t s = Exhausted s' \<and> ItemSection.end_time (item_section s') = None"
  then show "merge_loop f t s = (yielded s', Inl TypeError)"
    by (simp add: merge_loop.simps [of f t s] finish_def)
next
  assume none: "i_end_time (last (items d)) = None"
  show "\<exists>e. snd (stitch_file t f d) = Inl e"
  proof (cases "snd (stitch_file t f d)")
    case (Inl e)
    then show ?thesis by blast
  next
    case (Inr m)
    from stitch_file_Inr [OF this] none show ?thesis by simp
  qed
qed

text \<open>
  The theorem at the file \<^const>\<open>ends_with_period\<close>, whose segments and items end together,
  the items with a full stop.
\<close>

theorem C10_final_item_needs_end_time_witness:
  "i_end_time (last (items ends_with_period)) = None \<and>
   stitch_file 0 ''f'' ends_with_period = ([], Inl TypeError)"
  using C10_final_item_needs_end_time [of undefined "''f''" 0 undefined ends_with_period]
  by (simp add: ends_with_period_def eval_defs)

subsection \<open>The time offsets of the files\<close>

text \<open>
  Claim C5. For the file at position \<open>n\<close> of a run: the files before it have all ended
  normally, and its time offset is the sum of the \<^verbatim>\<open>max_offset\<close> they left; it is merged with
  that offset; and when it ends normally, the \<^verbatim>\<open>max_offset\<close> it leaves is the larger of the
  end time of its last segment and the end time of its last item. When no segment of any file
  has a negative end time, as the data model of the specification requires, the offsets never
  decrease from a file to the next.
\<close>

theorem C5_offset_accumulation:
  "(n < length (stitch_runs files) \<longrightarrow>
      n < length files \<and>
      (blocks (stitch_runs files ! n), outcome (stitch_runs files ! n)) =
        stitch_file (used_offset (stitch_runs files ! n)) (fst (files ! n)) (snd (files ! n)) \<and>
      (\<exists>ms. map outcome (take n (stitch_runs files)) = map Inr ms \<and>
            used_offset (stitch_runs files ! n) = sum_list ms) \<and>
      (\<forall>m. outcome (stitch_runs files ! n) = Inr m \<longrightarrow>
         (\<exists>e. i_end_time (last (items (snd (files ! n)))) = Some e \<and>
              m = max (SpeakerSection.end_time
                         (SpeakerSection_init (last (segments (snd (files ! n)))) (fst (files ! n))))
                      e))) \<and>
   ((\<forall>(f, d) \<in> set files. \<forall>sg \<in> set (segments d). \<forall>x. j_end_time sg = Some x \<longrightarrow> 0 \<le> x) \<longrightarrow>
      sorted (map used_offset (stitch_runs files)))"
proof (intro conjI impI allI)
  assume n: "n < length (stitch_runs files)"
  then have n': "n < length (stitch_from 0 0 files)" by (simp add: stitch_runs_def)
  from stitch_from_nth [OF n'] show "n < length files"
    and run: "(blocks (stitch_runs files ! n), outcome (stitch_runs files ! n)) =
        stitch_file (used_offset (stitch_runs files ! n)) (fst (files ! n)) (snd (files ! n))"
    by (simp_all add: stitch_runs_def)
  from stitch_from_offsets [OF n'] show
    "\<exists>ms. map outcome (take n (stitch_runs files)) = map Inr ms \<and>
          used_offset (stitch_runs files ! n) = sum_list ms"
    by (simp add: stitch_runs_def)
  fix m assume "outcome (stitch_runs files ! n) = Inr m"
  with run have "snd (stitch_file (used_offset (stitch_runs files ! n)) (fst (files ! n))
                   (snd (files ! n))) = Inr m"
    by (metis snd_conv)
  from stitch_file_Inr [OF this] show
    "\<exists>e. i_end_time (last (items (snd (files ! n)))) = Some e \<and>
         m = max (SpeakerSection.end_time
                    (SpeakerSection_init (last (segments (snd (files ! n)))) (fst (files ! n)))) e"
    by blast
next
  assume "\<forall>(f, d) \<in> set files. \<forall>sg \<in> set (segments d). \<forall>x. j_end_time sg = Some x \<longrightarrow> 0 \<le> x"
  from stitch_from_sorted [OF this, of 0 0] show "sorted (map used_offset (stitch_runs files))"
    by (simp add: stitch_runs_def)
qed

text \<open>
  The theorem at \<^const>\<open>three_files\<close>, which leave 2, 3 and 1: the offsets are 0, 2 and 5.
\<close>

theorem C5_offset_accumulation_witness:
  "map used_offset (stitch_runs three_files) = [0, 2, 5] \<and>
   map outcome (stitch_runs three_files) = [Inr 2, Inr 3, Inr 1] \<and>
   sorted (map used_offset (stitch_runs three_files))"
  using C5_offset_accumulation [of 2 three_files]
  by (simp add: three_files_def stitch_runs_def eval_defs)

subsection \<open>The header of a block\<close>

text \<open>
  Claim C6. The header takes its two times from the segment the block is attributed to, each
  shifted by the time offset of the block; but \<^const>\<open>format_duration\<close> does not write hours,
  minutes, seconds and milliseconds. For a block whose segment runs from 15.25 s to 3601.5 s
  in a file that starts at 60 s, the times to print are 75.25 s and 3661.5 s, that is
  \<^verbatim>\<open>00:01:15:250\<close> and \<^verbatim>\<open>01:01:01:500\<close>; the header reads \<^verbatim>\<open>75:15:15:00\<close> and
  \<^verbatim>\<open>3661:01:01:00\<close>: the whole seconds, the seconds of the minute twice, and the
  microseconds modulo 1000.
\<close>

theorem C6_header_fields_at_75_and_3661_seconds:
  "render_header
     \<lparr>speaker_label = SpeakerSection_init (segment ''spk_0'' 15.25 3601.5) ''a.json'',
      item_sections = [], time_offset = 60\<rparr>
   = ''[ speaker spk_0:a.json ] : ( 75:15:15:00 - 3661:01:01:00 )''"
  by (simp add: render_header_def format_eval SpeakerSection_init_def segment_def)

subsection \<open>The body of a block\<close>

lemma render_content_append:
  "render_content c (xs @ ys) =
     (case render_content c xs of Inl e \<Rightarrow> Inl e | Inr b \<Rightarrow> render_content b ys)"
  by (induction xs arbitrary: c) (auto simp: Let_def split: list.splits)

text \<open>
  Claim C7. The body grows item by item: an item adds its text (the content of its first
  alternative) to the body of the items before it, after one space when the item is not
  punctuation and the body so far is not empty, and after nothing otherwise. The items
  hello (a word), the comma (punctuation) and world (a word) render as \<^verbatim>\<open>hello, world\<close>
  under the header.
\<close>

theorem C7_body_spacing:
  "render_content c (its @ [it]) =
     (case render_content c its of
        Inl e \<Rightarrow> Inl e
      | Inr b \<Rightarrow>
          (case alternatives it of
             [] \<Rightarrow> Inl IndexError
           | a # _ \<Rightarrow> Inr (b @ (if b \<noteq> [] \<and> \<not> is_punctuation it then '' '' else []) @ a)))
   \<and> render
       \<lparr>speaker_label = sp,
        item_sections =
          [\<lparr>start_time = Some 0, end_time = Some (1 / 2), alternatives = [''hello''],
            item_type = ''pronunciation''\<rparr>,
           \<lparr>start_time = None, end_time = None, alternatives = ['',''],
            item_type = ''punctuation''\<rparr>,
           \<lparr>start_time = Some (1 / 2), end_time = Some 1, alternatives = [''world''],
            item_type = ''pronunciation''\<rparr>],
        time_offset = t\<rparr>
     = Inr (render_header \<lparr>speaker_label = sp, item_sections = [], time_offset = t\<rparr> @
            [newline] @ ''hello, world'')"
  by (simp add: render_content_append is_punctuation_def Let_def render_def render_header_def
      split: sum.splits list.splits)

subsection \<open>The output stream\<close>

lemma write_blocks_all:
  "map render bs = map Inr rs \<Longrightarrow>
   write_blocks out bs = (out @ concat (map (\<lambda>r. r @ [newline]) rs), None)"
proof (induction bs arbitrary: out rs)
  case Nil
  then show ?case by simp
next
  case (Cons b bs)
  then obtain r rs' where rs: "rs = r # rs'" "render b = Inr r" "map render bs = map Inr rs'"
    by (cases rs) auto
  with Cons.IH [of rs' "out @ r @ [newline]"] show ?case by simp
qed

text \<open>
  Claim C9, as the specification states it, fails: the main program writes one line feed after
  each rendered block and no empty line. For the blocks \<^const>\<open>block_A\<close> and
  \<^const>\<open>block_B\<close> the output is four lines, the header of the second block right under the
  body of the first.
\<close>

theorem C9_no_blank_line_counterexample:
  "write_blocks [] [block_A, block_B] =
     (''[ speaker A:f ] : ( 00:00:00:00 - 01:01:01:00 )\<newline>hi\<newline>[ speaker B:f ] : ( 01:01:01:00 - 02:02:02:00 )\<newline>bye\<newline>'',
      None) \<and>
   render block_A = Inr ''[ speaker A:f ] : ( 00:00:00:00 - 01:01:01:00 )\<newline>hi'' \<and>
   render block_B = Inr ''[ speaker B:f ] : ( 01:01:01:00 - 02:02:02:00 )\<newline>bye'' \<and>
   fst (write_blocks [] [block_A, block_B]) \<noteq>
     blank_line_layout
       [''[ speaker A:f ] : ( 00:00:00:00 - 01:01:01:00 )\<newline>hi'',
        ''[ speaker B:f ] : ( 01:01:01:00 - 02:02:02:00 )\<newline>bye'']"
  by (simp add: block_A_def block_B_def render_def render_header_def format_eval
      SpeakerSection_init_def segment_def blank_line_layout_def newline_def)

text \<open>
  Claim C9, amended. When every block renders, the output is, block after block, the header,
  a line feed, the body and one line feed: each block ends its own line, and the header of the
  next block starts on the line after the body.
\<close>

theorem C9_one_newline_after_each_block:
  assumes "map (\<lambda>b. render_content [] (item_sections b)) bs = map Inr cs"
  shows "write_blocks [] bs =
           (concat (map (\<lambda>(b, c). render_header b @ [newline] @ c @ [newline]) (zip bs cs)), None)"
proof -
  have len: "length bs = length cs"
    using assms by (metis length_map)
  have "map render bs = map Inr (map (\<lambda>(b, c). render_header b @ [newline] @ c) (zip bs cs))"
    using len assms by (induction bs cs rule: list_induct2) (auto simp: render_def)
  from write_blocks_all [OF this, of "[]"] show ?thesis
    by (simp add: comp_def case_prod_unfold)
qed

theorem C9_one_newline_after_each_block_witness:
  "map (\<lambda>b. render_content [] (item_sections b)) [block_A, block_B] = map Inr [''hi'', ''bye''] \<and>
   write_blocks [] [block_A, block_B] =
     (render_header block_A @ [newline] @ ''hi'' @ [newline] @
      render_header block_B @ [newline] @ ''bye'' @ [newline], None)"
  using C9_one_newline_after_each_block [of "[block_A, block_B]" "[''hi'', ''bye'']"]
  by (simp add: block_A_def block_B_def)

end
